theory Spec2Isabelle
  imports Complex_Main "HOL-Library.Sublist" "HOL-Library.AList"
begin

section \<open>Values, strings and exceptions\<close>

text \<open>
  The plugin \<^verbatim>\<open>astrbot_network_error_plugin.py\<close> wraps an asynchronous action that sends
  a message: a network error is retried with exponential backoff, and when every retry
  has failed the last message of the channel is recalled and an error notice is sent.

  Python values that reach the configuration dictionary are modelled by \<open>pyval\<close>.
  A \<open>float\<close> is an exact rational: rounding, infinities and NaN are not represented.
  A \<open>str\<close> is a \<open>string\<close>; for the text of an exception its characters are the
  code points U+0000 to U+00FF, on which \<open>lower\<close> below is Python's \<^verbatim>\<open>str.lower\<close>.
\<close>

datatype pyval =
    PyNone
  | PyBool bool
  | PyInt int
  | PyFloat rat
  | PyStr string
  | PyOther

text \<open>\<^verbatim>\<open>isinstance(v, int)\<close>: \<open>bool\<close> is a subclass of \<open>int\<close>.\<close>

fun isinstance_int :: "pyval \<Rightarrow> bool" where
  "isinstance_int (PyInt n) = True"
| "isinstance_int (PyBool b) = True"
| "isinstance_int v = False"

text \<open>\<^verbatim>\<open>isinstance(v, (int, float))\<close>.\<close>

fun isinstance_int_float :: "pyval \<Rightarrow> bool" where
  "isinstance_int_float (PyInt n) = True"
| "isinstance_int_float (PyBool b) = True"
| "isinstance_int_float (PyFloat x) = True"
| "isinstance_int_float v = False"

fun isinstance_str :: "pyval \<Rightarrow> bool" where
  "isinstance_str (PyStr s) = True"
| "isinstance_str v = False"

fun isinstance_bool :: "pyval \<Rightarrow> bool" where
  "isinstance_bool (PyBool b) = True"
| "isinstance_bool v = False"

text \<open>The integer an \<open>int\<close> instance stands for (\<open>True\<close> is 1, \<open>False\<close> is 0).\<close>

fun int_of :: "pyval \<Rightarrow> int" where
  "int_of (PyInt n) = n"
| "int_of (PyBool b) = (if b then 1 else 0)"
| "int_of v = 0"

text \<open>The number an \<open>int\<close> or \<open>float\<close> instance stands for.\<close>

fun num_of :: "pyval \<Rightarrow> rat" where
  "num_of (PyInt n) = of_int n"
| "num_of (PyBool b) = (if b then 1 else 0)"
| "num_of (PyFloat x) = x"
| "num_of v = 0"

fun bool_of :: "pyval \<Rightarrow> bool" where
  "bool_of (PyBool b) = b"
| "bool_of v = False"

fun str_of :: "pyval \<Rightarrow> string" where
  "str_of (PyStr s) = s"
| "str_of v = []"

text \<open>
  \<^verbatim>\<open>str.lower\<close> on the code points below U+0100: the letters A to Z (65 to 90) and
  the uppercase letters U+00C0 to U+00DE (192 to 222, the multiplication sign 215 apart)
  move up by 32, every other code point stays. Bit 5 (of value 32) is clear in both
  ranges, so moving up by 32 sets it.
\<close>

definition lower_char :: "char \<Rightarrow> char" where
  "lower_char c =
     (let n = (of_char c :: nat)
      in if (65 \<le> n \<and> n \<le> 90) \<or> (192 \<le> n \<and> n \<le> 222 \<and> n \<noteq> 215)
         then (case c of Char b0 b1 b2 b3 b4 b5 b6 b7 \<Rightarrow> Char b0 b1 b2 b3 b4 True b6 b7)
         else c)"

definition lower :: "string \<Rightarrow> string" where
  "lower s = map lower_char s"

text \<open>\<^verbatim>\<open>needle in haystack\<close> on strings: the needle occurs as a contiguous block.\<close>

fun str_in :: "string \<Rightarrow> string \<Rightarrow> bool" where
  "str_in needle [] = (needle = [])"
| "str_in needle (c # cs) = (prefix needle (c # cs) \<or> str_in needle cs)"

text \<open>
  What the plugin can tell about an \<open>Exception\<close> instance: whether it is a
  \<open>NetworkError\<close> (of \<^verbatim>\<open>astrbot.exceptions\<close>), else whether it is a \<open>TypeError\<close>,
  and its text \<^verbatim>\<open>str(error)\<close>.
\<close>

datatype exception_class = NetworkError | TypeError | OtherException

datatype exception = Exception (cls: exception_class) (text_of: string)

text \<open>
  What an awaited call can raise besides an \<open>Exception\<close>: \<open>KeyboardInterrupt\<close> and
  \<open>asyncio.CancelledError\<close> (Python 3.8 and later) derive from \<open>BaseException\<close> only,
  as do \<open>SystemExit\<close> and \<open>GeneratorExit\<close> (\<open>OtherBaseException\<close>);
  \<^verbatim>\<open>except Exception\<close> catches none of them.
\<close>

datatype non_exception = KeyboardInterrupt | CancelledError | OtherBaseException

datatype raised = Base non_exception | Exc exception

datatype 'a outcome = Returns 'a | Raises raised

section \<open>The error classifier\<close>

definition is_network_error :: "exception \<Rightarrow> bool" where
  "is_network_error error =
     (if cls error = NetworkError then True
      else let error_message = lower (text_of error)
        in if str_in ''network'' error_message \<or> str_in ''timeout'' error_message \<or>
              str_in ''connection reset'' error_message \<or>
              str_in ''connection refused'' error_message \<or>
              str_in ''host unreachable'' error_message \<or>
              str_in ''name or service not known'' error_message
           then True
           else if cls error = TypeError \<and>
                   (str_in ''fetch'' error_message \<or> str_in ''network request'' error_message)
           then True
           else False)"

section \<open>Configuration\<close>

type_synonym config = "string \<rightharpoonup> pyval"

text \<open>
  The default error text is a Chinese sentence of 16 code points; it is given here by
  the 48 bytes of its UTF-8 encoding and is only ever passed on to \<open>send_message\<close>.
\<close>

definition DEFAULT_error_message :: string where
  "DEFAULT_error_message =
     [CHR 0xE6, CHR 0x8A, CHR 0xB1, CHR 0xE6, CHR 0xAD, CHR 0x89, CHR 0xEF, CHR 0xBC,
      CHR 0x8C, CHR 0xE5, CHR 0x8F, CHR 0x91, CHR 0xE7, CHR 0x94, CHR 0x9F, CHR 0xE7,
      CHR 0xBD, CHR 0x91, CHR 0xE7, CHR 0xBB, CHR 0x9C, CHR 0xE9, CHR 0x94, CHR 0x99,
      CHR 0xE8, CHR 0xAF, CHR 0xAF, CHR 0xEF, CHR 0xBC, CHR 0x8C, CHR 0xE6, CHR 0xB6,
      CHR 0x88, CHR 0xE6, CHR 0x81, CHR 0xAF, CHR 0xE5, CHR 0xB7, CHR 0xB2, CHR 0xE6,
      CHR 0x92, CHR 0xA4, CHR 0xE5, CHR 0x9B, CHR 0x9E, CHR 0xE3, CHR 0x80, CHR 0x82]"

definition DEFAULT_CONFIG :: config where
  "DEFAULT_CONFIG =
     [''retry_attempts'' \<mapsto> PyInt 3,
      ''retry_delay_base'' \<mapsto> PyInt 1000,
      ''error_message'' \<mapsto> PyStr DEFAULT_error_message,
      ''log_sensitive_info'' \<mapsto> PyBool False,
      ''recall_retry_attempts'' \<mapsto> PyInt 2,
      ''recall_retry_delay_base'' \<mapsto> PyInt 500]"

text \<open>\<^verbatim>\<open>config.get(key)\<close>: \<open>None\<close> for a missing key.\<close>

definition dict_get :: "config \<Rightarrow> string \<Rightarrow> pyval" where
  "dict_get config key = (case config key of None \<Rightarrow> PyNone | Some v \<Rightarrow> v)"

text \<open>
  \<open>validate_config\<close> raises \<open>ValueError\<close> at the first check that fails. The message
  of each \<open>ValueError\<close> starts with the name of the field, which stands for it here.
\<close>

datatype config_error = ValueError string

definition validate_config :: "config \<Rightarrow> config_error + unit" where
  "validate_config config =
     (if \<not> isinstance_int (dict_get config ''retry_attempts'') \<or>
         int_of (dict_get config ''retry_attempts'') < 0
      then Inl (ValueError ''retry_attempts'')
      else if \<not> isinstance_int_float (dict_get config ''retry_delay_base'') \<or>
         num_of (dict_get config ''retry_delay_base'') \<le> 0
      then Inl (ValueError ''retry_delay_base'')
      else if \<not> isinstance_str (dict_get config ''error_message'')
      then Inl (ValueError ''error_message'')
      else if \<not> isinstance_bool (dict_get config ''log_sensitive_info'')
      then Inl (ValueError ''log_sensitive_info'')
      else if \<not> isinstance_int (dict_get config ''recall_retry_attempts'') \<or>
         int_of (dict_get config ''recall_retry_attempts'') < 0
      then Inl (ValueError ''recall_retry_attempts'')
      else if \<not> isinstance_int_float (dict_get config ''recall_retry_delay_base'') \<or>
         num_of (dict_get config ''recall_retry_delay_base'') \<le> 0
      then Inl (ValueError ''recall_retry_delay_base'')
      else Inr ())"

section \<open>The registry, the platform and the trace\<close>

text \<open>
  \<open>last_sent_message_ids\<close> is a \<open>dict\<close> from channel to message ID. It is modelled
  by the list of its items in insertion order: \<open>d.get(k)\<close> is \<open>map_of d k\<close>,
  \<open>d[k] = v\<close> is \<open>AList.update k v d\<close> and \<open>d.pop(k, None)\<close> is \<open>AList.delete k d\<close>.
  One invocation of the handler is modelled on its own: no other task runs between its
  steps, so the lock \<open>_message_ids_lock\<close> is always free when it is taken. Logging is
  left out.
\<close>

type_synonym registry = "(string \<times> string) list"

record event =
  channel_id :: string

text \<open>
  The calls one invocation makes, in order: the inner action, \<open>asyncio.sleep\<close> with its
  delay in seconds, the entry into \<open>_recall_and_clear_message_id\<close>, \<open>recall_message\<close> and
  \<open>send_message\<close> with their arguments.
\<close>

datatype call =
    NextAction
  | Sleep rat
  | RecallAndClear string string
  | RecallMessage string string
  | SendMessage string string

text \<open>
  The outside world of one invocation. \<open>sleep_retry p i\<close> is what the sleep before retry
  \<open>i\<close> raises, \<open>recall_message p ch m i\<close> what recall attempt \<open>i\<close> raises and
  \<open>sleep_recall p i\<close> what the sleep after it raises (\<open>None\<close>: the call completes).
  A sleep raises no \<open>Exception\<close>. \<open>send_message p ch text\<close> returns \<open>Some m\<close> for a truthy
  response that has a \<open>message_id\<close> attribute with \<open>str\<close> value \<open>m\<close>, and \<open>None\<close> for any other
  response. The inner action is a function of the event and of the number of the call
  within the invocation; it returns a message ID (a \<open>str\<close>) or \<open>None\<close>.
\<close>

record platform =
  sleep_retry :: "nat \<Rightarrow> non_exception option"
  recall_message :: "string \<Rightarrow> string \<Rightarrow> nat \<Rightarrow> raised option"
  sleep_recall :: "nat \<Rightarrow> non_exception option"
  send_message :: "string \<Rightarrow> string \<Rightarrow> string option outcome"

type_synonym action = "event \<Rightarrow> nat \<Rightarrow> string option outcome"

text \<open>The values \<open>create_network_error_handler\<close> reads from the validated configuration.\<close>

record settings =
  retry_attempts :: int
  retry_delay_base_ms :: rat
  error_message_text :: string
  log_sensitive_info :: bool
  recall_retry_attempts :: int
  recall_retry_delay_base_ms :: rat

datatype loop_exit = Completed | Returned | Raised raised

type_synonym 'a run = "'a \<times> registry \<times> call list"

fun after :: "call list \<Rightarrow> 'a run \<Rightarrow> 'a run" where
  "after cs (x, reg, cs') = (x, reg, cs @ cs')"

section \<open>The recall routine\<close>

definition backoff :: "rat \<Rightarrow> nat \<Rightarrow> rat" where
  "backoff base_ms attempts = base_ms * (2 ^ attempts) / 1000"

text \<open>The body of \<^verbatim>\<open>for attempts in range(recall_retry_attempts + 1)\<close>.\<close>

fun recall_loop ::
  "platform \<Rightarrow> string \<Rightarrow> string \<Rightarrow> int \<Rightarrow> rat \<Rightarrow> nat list \<Rightarrow> registry \<Rightarrow> loop_exit run" where
  "recall_loop p ch m r base [] reg = (Completed, reg, [])"
| "recall_loop p ch m r base (attempts # rest) reg =
     (case recall_message p ch m attempts of
        None \<Rightarrow> (Returned, AList.delete ch reg, [RecallMessage ch m])
      | Some (Base b) \<Rightarrow> (Raised (Base b), reg, [RecallMessage ch m])
      | Some (Exc recall_e) \<Rightarrow>
          if int attempts < r
          then (case sleep_recall p attempts of
                  Some b \<Rightarrow> (Raised (Base b), reg, [RecallMessage ch m, Sleep (backoff base attempts)])
                | None \<Rightarrow> after [RecallMessage ch m, Sleep (backoff base attempts)]
                           (recall_loop p ch m r base rest reg))
          else after [RecallMessage ch m] (recall_loop p ch m r base rest reg))"

definition recall_and_clear_message_id ::
  "platform \<Rightarrow> string \<Rightarrow> string \<Rightarrow> bool \<Rightarrow> int \<Rightarrow> rat \<Rightarrow> registry \<Rightarrow> unit outcome run" where
  "recall_and_clear_message_id p ch m log_sensitive r base reg =
     after [RecallAndClear ch m]
       (if map_of reg ch = Some m
        then (case recall_loop p ch m r base [0..<nat (r + 1)] reg of
                (Raised e, reg', cs) \<Rightarrow> (Raises e, reg', cs)
              | (Returned, reg', cs) \<Rightarrow> (Returns (), reg', cs)
              | (Completed, reg', cs) \<Rightarrow> (Returns (), reg', cs))
        else (Returns (), reg, []))"

section \<open>The handler\<close>

text \<open>\<^verbatim>\<open>if message_id_raw is not None: last_sent_message_ids[channel_id] = str(message_id_raw)\<close>\<close>

fun store :: "string \<Rightarrow> string option \<Rightarrow> registry \<Rightarrow> registry" where
  "store ch None reg = reg"
| "store ch (Some m) reg = AList.update ch m reg"

text \<open>
  The body of \<^verbatim>\<open>for attempts in range(retry_attempts)\<close>; the call of the inner action
  in retry \<open>attempts\<close> is call \<open>attempts + 1\<close> of the invocation.
\<close>

fun retry_loop ::
  "(nat \<Rightarrow> string option outcome) \<Rightarrow> platform \<Rightarrow> settings \<Rightarrow> string \<Rightarrow> nat list \<Rightarrow> registry
     \<Rightarrow> loop_exit run" where
  "retry_loop act p c ch [] reg = (Completed, reg, [])"
| "retry_loop act p c ch (attempts # rest) reg =
     (case sleep_retry p attempts of
        Some b \<Rightarrow> (Raised (Base b), reg, [Sleep (backoff (retry_delay_base_ms c) attempts)])
      | None \<Rightarrow>
          after [Sleep (backoff (retry_delay_base_ms c) attempts), NextAction]
            (case act (Suc attempts) of
               Returns message_id_raw \<Rightarrow> (Returned, store ch message_id_raw reg, [])
             | Raises (Base b) \<Rightarrow> (Raised (Base b), reg, [])
             | Raises (Exc retry_error) \<Rightarrow>
                 if is_network_error retry_error
                 then retry_loop act p c ch rest reg
                 else (Raised (Exc retry_error), reg, [])))"

text \<open>The notice: \<^verbatim>\<open>try: error_response = await send_message(...) except Exception\<close>.\<close>

definition send_notice :: "platform \<Rightarrow> settings \<Rightarrow> string \<Rightarrow> registry \<Rightarrow> unit outcome run" where
  "send_notice p c ch reg =
     after [SendMessage ch (error_message_text c)]
       (case send_message p ch (error_message_text c) of
          Returns error_response \<Rightarrow> (Returns (), store ch error_response reg, [])
        | Raises (Exc send_error_e) \<Rightarrow> (Returns (), reg, [])
        | Raises (Base b) \<Rightarrow> (Raises (Base b), reg, []))"

text \<open>
  What follows the loop when every retry has failed: the recall, then the notice.
  \<^verbatim>\<open>if last_message_id_in_channel:\<close> holds for a string that is not empty.
\<close>

definition recover ::
  "platform \<Rightarrow> settings \<Rightarrow> string \<Rightarrow> string option \<Rightarrow> registry \<Rightarrow> unit outcome run" where
  "recover p c ch last_message_id_in_channel reg =
     (case (case last_message_id_in_channel of
              None \<Rightarrow> (Returns (), reg, [])
            | Some m \<Rightarrow>
                if m = [] then (Returns (), reg, [])
                else recall_and_clear_message_id p ch m (log_sensitive_info c)
                       (recall_retry_attempts c) (recall_retry_delay_base_ms c) reg) of
        (Raises e, reg', cs) \<Rightarrow> (Raises e, reg', cs)
      | (Returns u, reg', cs) \<Rightarrow> after cs (send_notice p c ch reg'))"

definition network_error_handler ::
  "action \<Rightarrow> settings \<Rightarrow> platform \<Rightarrow> event \<Rightarrow> registry \<Rightarrow> unit outcome run" where
  "network_error_handler next_action c p event reg =
     (let last_message_id_in_channel = map_of reg (channel_id event)
      in after [NextAction]
        (case next_action event 0 of
           Returns message_id_raw \<Rightarrow> (Returns (), store (channel_id event) message_id_raw reg, [])
         | Raises (Base b) \<Rightarrow> (Raises (Base b), reg, [])
         | Raises (Exc initial_error) \<Rightarrow>
             if is_network_error initial_error
             then (case retry_loop (next_action event) p c (channel_id event)
                          [0..<nat (retry_attempts c)] reg of
                     (Returned, reg', cs) \<Rightarrow> (Returns (), reg', cs)
                   | (Raised e, reg', cs) \<Rightarrow> (Raises e, reg', cs)
                   | (Completed, reg', cs) \<Rightarrow>
                       after cs (recover p c (channel_id event) last_message_id_in_channel reg'))
             else (Raises (Exc initial_error), reg, [])))"

text \<open>
  \<open>create_network_error_handler\<close>: the defaults updated by the given configuration
  (\<open>None\<close> and the empty dictionary change nothing), validated once; the handler is
  built from the validated values only when the validation raises nothing.
\<close>

definition settings_of :: "config \<Rightarrow> settings" where
  "settings_of current_config =
     \<lparr>retry_attempts = int_of (dict_get current_config ''retry_attempts''),
      retry_delay_base_ms = num_of (dict_get current_config ''retry_delay_base''),
      error_message_text = str_of (dict_get current_config ''error_message''),
      log_sensitive_info = bool_of (dict_get current_config ''log_sensitive_info''),
      recall_retry_attempts = int_of (dict_get current_config ''recall_retry_attempts''),
      recall_retry_delay_base_ms = num_of (dict_get current_config ''recall_retry_delay_base'')\<rparr>"

definition merged :: "config option \<Rightarrow> config" where
  "merged config = (case config of None \<Rightarrow> DEFAULT_CONFIG | Some cfg \<Rightarrow> DEFAULT_CONFIG ++ cfg)"

definition create_network_error_handler ::
  "action \<Rightarrow> config option
     \<Rightarrow> config_error + (platform \<Rightarrow> event \<Rightarrow> registry \<Rightarrow> unit outcome run)" where
  "create_network_error_handler next_action config =
     (let current_config = merged config
      in case validate_config current_config of
           Inl err \<Rightarrow> Inl err
         | Inr u \<Rightarrow> Inr (network_error_handler next_action (settings_of current_config)))"

section \<open>Notions of the specification\<close>

text \<open>
  A description mentions a needle, case-insensitively, when some contiguous part of it
  is the needle up to the case of its letters (the needles are in lower case).
\<close>

definition mentions :: "string \<Rightarrow> string \<Rightarrow> bool" where
  "mentions needle description = (\<exists>ps w ss. description = ps @ w @ ss \<and> lower w = needle)"

text \<open>The classifier \<open>isTransient\<close> as the specification words it.\<close>

definition spec_isTransient :: "exception \<Rightarrow> bool" where
  "spec_isTransient e =
     (cls e = NetworkError \<or>
      mentions ''network'' (text_of e) \<or> mentions ''timeout'' (text_of e) \<or>
      mentions ''connection reset'' (text_of e) \<or>
      mentions ''connection refused'' (text_of e) \<or>
      mentions ''host unreachable'' (text_of e) \<or>
      mentions ''name or service not known'' (text_of e) \<or>
      (cls e = TypeError \<and>
         (mentions ''fetch'' (text_of e) \<or> mentions ''network request'' (text_of e))))"

text \<open>
  The configurations the specification rejects: a retry count that is negative or not
  an integer, a delay base that is zero, negative or not a number, an error text that
  is not a string, a logging flag that is not a boolean.
\<close>

definition spec_rejected :: "config \<Rightarrow> bool" where
  "spec_rejected m =
     (int_of (dict_get m ''retry_attempts'') < 0 \<or>
      \<not> isinstance_int (dict_get m ''retry_attempts'') \<or>
      num_of (dict_get m ''retry_delay_base'') \<le> 0 \<or>
      \<not> isinstance_int_float (dict_get m ''retry_delay_base'') \<or>
      \<not> isinstance_str (dict_get m ''error_message'') \<or>
      \<not> isinstance_bool (dict_get m ''log_sensitive_info'') \<or>
      int_of (dict_get m ''recall_retry_attempts'') < 0 \<or>
      \<not> isinstance_int (dict_get m ''recall_retry_attempts'') \<or>
      num_of (dict_get m ''recall_retry_delay_base'') \<le> 0 \<or>
      \<not> isinstance_int_float (dict_get m ''recall_retry_delay_base''))"

text \<open>A call that fails with a transient error: it raises an \<open>Exception\<close> that
  \<open>is_network_error\<close> takes for a network error.\<close>

fun fails_transiently :: "'a outcome \<Rightarrow> bool" where
  "fails_transiently (Raises (Exc e)) = is_network_error e"
| "fails_transiently (Raises (Base b)) = False"
| "fails_transiently (Returns r) = False"

text \<open>The calls of the retries with the given indices: a sleep, then the inner action.\<close>

definition retry_calls :: "settings \<Rightarrow> nat list \<Rightarrow> call list" where
  "retry_calls c xs =
     concat (map (\<lambda>i. [Sleep (backoff (retry_delay_base_ms c) i), NextAction]) xs)"

text \<open>How a call of the inner action ends the invocation when it is not retried.\<close>

fun settle :: "string \<Rightarrow> string option outcome \<Rightarrow> registry \<Rightarrow> unit outcome run" where
  "settle ch (Returns message_id_raw) reg = (Returns (), store ch message_id_raw reg, [])"
| "settle ch (Raises x) reg = (Raises x, reg, [])"

text \<open>The delays of the sleeps among the calls, and the calls of each other kind.\<close>

fun sleeps :: "call list \<Rightarrow> rat list" where
  "sleeps [] = []"
| "sleeps (Sleep d # cs) = d # sleeps cs"
| "sleeps (x # cs) = sleeps cs"

fun is_RecallAndClear :: "call \<Rightarrow> bool" where
  "is_RecallAndClear (RecallAndClear ch m) = True"
| "is_RecallAndClear x = False"

fun is_RecallMessage :: "call \<Rightarrow> bool" where
  "is_RecallMessage (RecallMessage ch m) = True"
| "is_RecallMessage x = False"

fun is_SendMessage :: "call \<Rightarrow> bool" where
  "is_SendMessage (SendMessage ch t) = True"
| "is_SendMessage x = False"

text \<open>The snapshot of the registry is a message ID that is not empty.\<close>

fun truthy :: "string option \<Rightarrow> bool" where
  "truthy None = False"
| "truthy (Some m) = (m \<noteq> [])"

text \<open>The dictionary holds at most one item for each channel.\<close>

definition one_entry_per_channel :: "registry \<Rightarrow> bool" where
  "one_entry_per_channel reg = distinct (map fst reg)"

text \<open>
  The calls of the recall attempts with the given indices when each of them fails: the
  recall, then a sleep when a retry is left.
\<close>

definition recall_calls :: "string \<Rightarrow> string \<Rightarrow> int \<Rightarrow> rat \<Rightarrow> nat list \<Rightarrow> call list" where
  "recall_calls ch m r base xs =
     concat (map (\<lambda>i. if int i < r then [RecallMessage ch m, Sleep (backoff base i)]
                        else [RecallMessage ch m]) xs)"

text \<open>A recall attempt that fails: \<open>recall_message\<close> raises an \<open>Exception\<close>.\<close>

fun recall_fails :: "raised option \<Rightarrow> bool" where
  "recall_fails (Some (Exc e)) = True"
| "recall_fails x = False"


subsection \<open>Scenarios\<close>

text \<open>
  The configuration of the specification's scenario, two retries from 100 ms, with the
  default recall policy; an event on the channel \<open>c\<close>; a platform on which every call
  completes and one on which every recall and the notice fail.
\<close>

definition scenario_settings :: settings where
  "scenario_settings =
     \<lparr>retry_attempts = 2, retry_delay_base_ms = 100, error_message_text = ''error'',
      log_sensitive_info = False, recall_retry_attempts = 2,
      recall_retry_delay_base_ms = 500\<rparr>"

definition scenario_event :: event where
  "scenario_event = \<lparr>channel_id = ''c''\<rparr>"

definition calm_platform :: platform where
  "calm_platform =
     \<lparr>sleep_retry = (\<lambda>i. None), recall_message = (\<lambda>ch m i. None),
      sleep_recall = (\<lambda>i. None), send_message = (\<lambda>ch t. Returns (Some ''n1''))\<rparr>"

definition failing_platform :: platform where
  "failing_platform =
     \<lparr>sleep_retry = (\<lambda>i. None),
      recall_message = (\<lambda>ch m i. Some (Exc (Exception OtherException ''recall refused''))),
      sleep_recall = (\<lambda>i. None),
      send_message = (\<lambda>ch t. Raises (Exc (Exception NetworkError ''down'')))\<rparr>"

text \<open>An inner action that fails with a network error \<open>n\<close> times and then ends as given.\<close>

definition fails_then :: "nat \<Rightarrow> string option outcome \<Rightarrow> action" where
  "fails_then n x = (\<lambda>ev i. if i < n then Raises (Exc (Exception NetworkError ''down'')) else x)"

section \<open>The classifier meets its specification\<close>

lemma str_in_sublist: "str_in needle hay = sublist needle hay"
  by (induction hay) (simp_all add: sublist_Cons_right)

lemma sublist_map_blocks:
  "sublist needle (map f description) =
     (\<exists>ps w ss. description = ps @ w @ ss \<and> map f w = needle)"
proof
  assume "sublist needle (map f description)"
  then obtain ps' ss' where "map f description = ps' @ needle @ ss'"
    by (auto simp: sublist_def)
  then obtain ps r where r: "description = ps @ r" "map f r = needle @ ss'"
    by (metis map_eq_append_conv)
  from r(2) obtain w ss where "r = w @ ss" "map f w = needle"
    by (metis map_eq_append_conv)
  with r(1) show "\<exists>ps w ss. description = ps @ w @ ss \<and> map f w = needle"
    by blast
next
  assume "\<exists>ps w ss. description = ps @ w @ ss \<and> map f w = needle"
  then obtain ps w ss where "description = ps @ w @ ss" "map f w = needle"
    by blast
  then have "map f description = map f ps @ needle @ map f ss"
    by simp
  then show "sublist needle (map f description)"
    unfolding sublist_def by blast
qed

lemma str_in_lower_mentions: "str_in needle (lower description) = mentions needle description"
  by (simp add: str_in_sublist mentions_def lower_def sublist_map_blocks)

text \<open>
  C8. \<open>is_network_error\<close> is true exactly when the error is a \<open>NetworkError\<close>, or its
  text contains, case-insensitively, one of "network", "timeout", "connection reset",
  "connection refused", "host unreachable", "name or service not known", or it is a
  \<open>TypeError\<close> whose text mentions "fetch" or "network request"; it is false for every
  other error. As a total function to \<open>bool\<close> it has a value on every error and changes
  nothing. (The text \<^verbatim>\<open>str(error)\<close> is taken as given: an exception class whose
  \<^verbatim>\<open>__str__\<close> raises is outside the model.)
\<close>

theorem is_network_error_iff_spec: "is_network_error e = spec_isTransient e"
  unfolding is_network_error_def spec_isTransient_def Let_def str_in_lower_mentions
  by simp

theorem is_network_error_iff_spec_witness:
  "is_network_error (Exception OtherException ''Connection Reset by peer'') \<and>
   spec_isTransient (Exception OtherException ''Connection Reset by peer'') \<and>
   \<not> is_network_error (Exception OtherException ''bad input'') \<and>
   \<not> spec_isTransient (Exception OtherException ''bad input'') \<and>
   \<not> is_network_error (Exception OtherException ''Fetch failed'') \<and>
   is_network_error (Exception TypeError ''Fetch failed'') \<and>
   spec_isTransient (Exception TypeError ''Fetch failed'')"
  using is_network_error_iff_spec [of "Exception OtherException ''Connection Reset by peer''"]
    is_network_error_iff_spec [of "Exception OtherException ''bad input''"]
    is_network_error_iff_spec [of "Exception TypeError ''Fetch failed''"]
  by (simp add: is_network_error_def lower_def lower_char_def)

section \<open>Construction validates the configuration\<close>

lemma validate_config_rejects: "isl (validate_config m) = spec_rejected m"
  by (auto simp add: validate_config_def spec_rejected_def)

text \<open>
  C7. \<open>create_network_error_handler\<close> validates the merged configuration (the call of
  \<open>validate_config\<close> is the only one in the program). Whenever \<open>retry_attempts\<close> or
  \<open>recall_retry_attempts\<close> is negative or not an integer, \<open>retry_delay_base\<close> or
  \<open>recall_retry_delay_base\<close> is zero, negative or not a number, \<open>error_message\<close> is not a
  string or \<open>log_sensitive_info\<close> is not a boolean, the construction raises the
  \<open>ValueError\<close> of the validation and no handler is built; in every other case the
  handler is built from the merged values.
\<close>

theorem create_network_error_handler_validates:
  "(spec_rejected (merged config) \<longrightarrow>
      (\<exists>err. validate_config (merged config) = Inl err \<and>
             create_network_error_handler a config = Inl err)) \<and>
   (\<not> spec_rejected (merged config) \<longrightarrow>
      create_network_error_handler a config =
        Inr (network_error_handler a (settings_of (merged config))))"
  using validate_config_rejects [of "merged config"]
  by (cases "validate_config (merged config)")
     (simp_all add: create_network_error_handler_def)

theorem create_network_error_handler_validates_witness:
  "spec_rejected (merged (Some [''retry_attempts'' \<mapsto> PyInt (- 1)])) \<and>
   create_network_error_handler (\<lambda>e k. Returns None) (Some [''retry_attempts'' \<mapsto> PyInt (- 1)]) =
     Inl (ValueError ''retry_attempts'') \<and>
   spec_rejected (merged (Some [''recall_retry_delay_base'' \<mapsto> PyFloat 0])) \<and>
   create_network_error_handler (\<lambda>e k. Returns None) (Some [''recall_retry_delay_base'' \<mapsto> PyFloat 0]) =
     Inl (ValueError ''recall_retry_delay_base'') \<and>
   \<not> spec_rejected (merged None) \<and>
   create_network_error_handler (\<lambda>e k. Returns None) None =
     Inr (network_error_handler (\<lambda>e k. Returns None)
       \<lparr>retry_attempts = 3, retry_delay_base_ms = 1000,
        error_message_text = DEFAULT_error_message, log_sensitive_info = False,
        recall_retry_attempts = 2, recall_retry_delay_base_ms = 500\<rparr>)"
  using create_network_error_handler_validates
          [of "Some [''retry_attempts'' \<mapsto> PyInt (- 1)]" "\<lambda>e k. Returns None"]
    create_network_error_handler_validates
          [of "Some [''recall_retry_delay_base'' \<mapsto> PyFloat 0]" "\<lambda>e k. Returns None"]
    create_network_error_handler_validates [of None "\<lambda>e k. Returns None"]
  by (simp add: spec_rejected_def merged_def validate_config_def dict_get_def
        DEFAULT_CONFIG_def settings_of_def)

text \<open>
  C9. The validation takes \<open>True\<close> and \<open>False\<close> for \<open>retry_attempts\<close> and
  \<open>recall_retry_attempts\<close> as it takes the integers 1 and 0, and a handler is built from
  a configuration whose two retry counts are booleans: it retries once for \<open>True\<close> and
  not at all for \<open>False\<close>.
\<close>

theorem validate_config_accepts_bool:
  "validate_config (m(''retry_attempts'' \<mapsto> PyBool b, ''recall_retry_attempts'' \<mapsto> PyBool b')) =
   validate_config (m(''retry_attempts'' \<mapsto> PyInt (if b then 1 else 0),
                      ''recall_retry_attempts'' \<mapsto> PyInt (if b' then 1 else 0))) \<and>
   validate_config
     (merged (Some [''retry_attempts'' \<mapsto> PyBool b, ''recall_retry_attempts'' \<mapsto> PyBool b'])) =
     Inr () \<and>
   create_network_error_handler a
     (Some [''retry_attempts'' \<mapsto> PyBool b, ''recall_retry_attempts'' \<mapsto> PyBool b']) =
     Inr (network_error_handler a
       \<lparr>retry_attempts = (if b then 1 else 0), retry_delay_base_ms = 1000,
        error_message_text = DEFAULT_error_message, log_sensitive_info = False,
        recall_retry_attempts = (if b' then 1 else 0), recall_retry_delay_base_ms = 500\<rparr>)"
  by (simp add: create_network_error_handler_def merged_def validate_config_def dict_get_def
        DEFAULT_CONFIG_def settings_of_def)

theorem validate_config_accepts_bool_witness:
  "validate_config
     (merged (Some [''retry_attempts'' \<mapsto> PyBool True, ''recall_retry_attempts'' \<mapsto> PyBool False])) =
     Inr () \<and>
   create_network_error_handler (\<lambda>e k. Returns None)
     (Some [''retry_attempts'' \<mapsto> PyBool True, ''recall_retry_attempts'' \<mapsto> PyBool False]) =
     Inr (network_error_handler (\<lambda>e k. Returns None)
       \<lparr>retry_attempts = 1, retry_delay_base_ms = 1000,
        error_message_text = DEFAULT_error_message, log_sensitive_info = False,
        recall_retry_attempts = 0, recall_retry_delay_base_ms = 500\<rparr>)"
  using validate_config_accepts_bool [of DEFAULT_CONFIG True False "\<lambda>e k. Returns None"]
  by simp

section \<open>Runs of the retry loop\<close>

lemma after_after [simp]: "after cs (after cs' r) = after (cs @ cs') r"
  by (cases r) simp

lemma after_Nil [simp]: "after [] r = r"
  by (cases r) simp

lemma fst_after [simp]: "fst (after cs r) = fst r"
  by (cases r) simp

lemma registry_after [simp]: "fst (snd (after cs r)) = fst (snd r)"
  by (cases r) simp

lemma calls_after [simp]: "snd (snd (after cs r)) = cs @ snd (snd r)"
  by (cases r) simp

lemma fails_transiently_iff:
  "fails_transiently x = (\<exists>e. x = Raises (Exc e) \<and> is_network_error e)"
  by (cases x rule: fails_transiently.cases) simp_all

lemma retry_calls_simps [simp]:
  "retry_calls c [] = []"
  "retry_calls c (i # xs) = Sleep (backoff (retry_delay_base_ms c) i) # NextAction # retry_calls c xs"
  "retry_calls c (xs @ ys) = retry_calls c xs @ retry_calls c ys"
  by (simp_all add: retry_calls_def)

lemma retry_loop_transient:
  assumes "\<forall>i\<in>set xs. sleep_retry p i = None \<and> fails_transiently (act (Suc i))"
  shows "retry_loop act p c ch (xs @ ys) reg =
           after (retry_calls c xs) (retry_loop act p c ch ys reg)"
  using assms
proof (induction xs)
  case Nil
  then show ?case by simp
next
  case (Cons i xs)
  then obtain e where "act (Suc i) = Raises (Exc e)" "is_network_error e"
    by (auto simp: fails_transiently_iff)
  with Cons show ?case by simp
qed


lemma upt_split: "j < n \<Longrightarrow> [0..<n] = [0..<j] @ j # [Suc j..<n]"
  by (metis upt_conv_Cons upt_add_eq_append le_add_diff_inverse less_imp_le zero_le)

lemma retry_loop_settled:
  assumes "\<forall>i<j. sleep_retry p i = None \<and> fails_transiently (act (Suc i))"
    and "sleep_retry p j = None" and "\<not> fails_transiently (act (Suc j))" and "j < n"
  shows "retry_loop act p c ch [0..<n] reg =
           after (retry_calls c [0..<Suc j])
             (case act (Suc j) of
                Returns r \<Rightarrow> (Returned, store ch r reg, [])
              | Raises x \<Rightarrow> (Raised x, reg, []))"
proof -
  have "retry_loop act p c ch ([0..<j] @ j # [Suc j..<n]) reg =
          after (retry_calls c [0..<j]) (retry_loop act p c ch (j # [Suc j..<n]) reg)"
    using assms(1) by (intro retry_loop_transient) simp
  moreover have "retry_loop act p c ch (j # [Suc j..<n]) reg =
      after [Sleep (backoff (retry_delay_base_ms c) j), NextAction]
        (case act (Suc j) of
                Returns r \<Rightarrow> (Returned, store ch r reg, [])
              | Raises x \<Rightarrow> (Raised x, reg, []))"
    using assms(2,3) by (auto split: outcome.splits raised.splits)
  ultimately show ?thesis
    using upt_split [OF assms(4)] by simp
qed

lemma retry_loop_sleep_cancelled:
  assumes "\<forall>i<j. sleep_retry p i = None \<and> fails_transiently (act (Suc i))"
    and "sleep_retry p j = Some b" and "j < n"
  shows "retry_loop act p c ch [0..<n] reg =
           (Raised (Base b), reg,
            retry_calls c [0..<j] @ [Sleep (backoff (retry_delay_base_ms c) j)])"
proof -
  have "retry_loop act p c ch ([0..<j] @ j # [Suc j..<n]) reg =
          after (retry_calls c [0..<j]) (retry_loop act p c ch (j # [Suc j..<n]) reg)"
    using assms(1) by (intro retry_loop_transient) simp
  then show ?thesis
    using upt_split [OF assms(3)] assms(2) by simp
qed

lemma handler_settled:
  assumes "\<forall>i<k. fails_transiently (na ev i)" and "\<forall>i<k. sleep_retry p i = None"
    and "\<not> fails_transiently (na ev k)" and "int k \<le> retry_attempts c"
  shows "network_error_handler na c p ev reg =
           after (NextAction # retry_calls c [0..<k]) (settle (channel_id ev) (na ev k) reg)"
proof (cases k)
  case 0
  with assms(3) show ?thesis
    by (auto simp: network_error_handler_def split: outcome.splits raised.splits)
next
  case (Suc j)
  with assms(1) obtain e where e: "na ev 0 = Raises (Exc e)" "is_network_error e"
    by (auto simp: fails_transiently_iff)
  have "j < nat (retry_attempts c)"
    using assms(4) Suc by simp
  moreover have "\<forall>i<j. sleep_retry p i = None \<and> fails_transiently (na ev (Suc i))"
    using assms(1,2) Suc by simp
  ultimately have "retry_loop (na ev) p c (channel_id ev) [0..<nat (retry_attempts c)] reg =
           after (retry_calls c [0..<Suc j])
             (case na ev (Suc j) of
                Returns r \<Rightarrow> (Returned, store (channel_id ev) r reg, [])
              | Raises x \<Rightarrow> (Raised x, reg, []))"
    using assms(2,3) Suc by (intro retry_loop_settled) simp_all
  then show ?thesis
    using e Suc by (simp add: network_error_handler_def split: outcome.splits)
qed

lemma handler_sleep_cancelled:
  assumes "\<forall>i\<le>j. fails_transiently (na ev i)" and "\<forall>i<j. sleep_retry p i = None"
    and "sleep_retry p j = Some b" and "int j < retry_attempts c"
  shows "network_error_handler na c p ev reg =
           (Raises (Base b), reg,
            NextAction # retry_calls c [0..<j] @ [Sleep (backoff (retry_delay_base_ms c) j)])"
proof -
  from assms(1) obtain e where e: "na ev 0 = Raises (Exc e)" "is_network_error e"
    by (auto simp: fails_transiently_iff)
  have "retry_loop (na ev) p c (channel_id ev) [0..<nat (retry_attempts c)] reg =
           (Raised (Base b), reg,
            retry_calls c [0..<j] @ [Sleep (backoff (retry_delay_base_ms c) j)])"
    using assms by (intro retry_loop_sleep_cancelled) auto
  then show ?thesis
    using e by (simp add: network_error_handler_def)
qed


lemma sleeps_append [simp]: "sleeps (xs @ ys) = sleeps xs @ sleeps ys"
  by (induction xs rule: sleeps.induct) simp_all

lemma sleeps_retry_calls [simp]:
  "sleeps (retry_calls c xs) = map (backoff (retry_delay_base_ms c)) xs"
  by (induction xs) simp_all

lemma retry_calls_no_recovery [simp]:
  "filter is_RecallAndClear (retry_calls c xs) = []"
  "filter is_RecallMessage (retry_calls c xs) = []"
  "filter is_SendMessage (retry_calls c xs) = []"
  by (induction xs) simp_all

lemma retry_calls_actions [simp]:
  "length (filter (\<lambda>x. x = NextAction) (retry_calls c xs)) = length xs"
  by (induction xs) simp_all

lemmas scenario_defs = scenario_settings_def scenario_event_def calm_platform_def
  failing_platform_def fails_then_def

section \<open>Errors that are not retried\<close>

text \<open>
  C3. When the inner action raises an \<open>Exception\<close> that \<open>is_network_error\<close> does not take
  for a network error, on the first attempt (\<open>k = 0\<close>) or on the attempt of retry
  \<open>k - 1\<close> after \<open>k\<close> transient failures, the handler raises that very exception at once:
  the inner action has been called \<open>k + 1\<close> times and never again, nothing is recalled or
  sent, and the registry is as it was. For \<open>k = 0\<close> there is no sleep at all.
\<close>

theorem non_transient_error_propagates:
  assumes "\<forall>i<k. fails_transiently (next_action ev i)"
    and "\<forall>i<k. sleep_retry p i = None"
    and "int k \<le> retry_attempts c"
    and "next_action ev k = Raises (Exc e)" and "\<not> is_network_error e"
  shows "network_error_handler next_action c p ev reg =
           (Raises (Exc e), reg, NextAction # retry_calls c [0..<k]) \<and>
         sleeps (NextAction # retry_calls c [0..<k]) =
           map (backoff (retry_delay_base_ms c)) [0..<k] \<and>
         length (filter (\<lambda>x. x = NextAction) (NextAction # retry_calls c [0..<k])) = Suc k \<and>
         filter is_RecallAndClear (NextAction # retry_calls c [0..<k]) = [] \<and>
         filter is_RecallMessage (NextAction # retry_calls c [0..<k]) = [] \<and>
         filter is_SendMessage (NextAction # retry_calls c [0..<k]) = []"
  using handler_settled [of k next_action ev p c reg] assms
  by simp

theorem non_transient_error_propagates_witness:
  "network_error_handler
     (fails_then 1 (Raises (Exc (Exception OtherException ''bad input''))))
     scenario_settings calm_platform scenario_event [(''c'', ''m0'')] =
   (Raises (Exc (Exception OtherException ''bad input'')), [(''c'', ''m0'')],
    [NextAction, Sleep (1 / 10), NextAction]) \<and>
   network_error_handler
     (fails_then 0 (Raises (Exc (Exception OtherException ''bad input''))))
     scenario_settings calm_platform scenario_event [(''c'', ''m0'')] =
   (Raises (Exc (Exception OtherException ''bad input'')), [(''c'', ''m0'')], [NextAction])"
  using non_transient_error_propagates [of 1
      "fails_then 1 (Raises (Exc (Exception OtherException ''bad input'')))"
      scenario_event calm_platform scenario_settings
      "Exception OtherException ''bad input''" "[(''c'', ''m0'')]"]
    non_transient_error_propagates [of 0
      "fails_then 0 (Raises (Exc (Exception OtherException ''bad input'')))"
      scenario_event calm_platform scenario_settings
      "Exception OtherException ''bad input''" "[(''c'', ''m0'')]"]
  by (simp add: scenario_defs is_network_error_def lower_def lower_char_def backoff_def)

text \<open>
  C4. When the inner action raises \<open>KeyboardInterrupt\<close> or \<open>CancelledError\<close> (or anything
  else that is not an \<open>Exception\<close>), on the first attempt or in a retry, or when the sleep
  of a retry is cancelled, the handler raises it at once: the calls stop with the call
  that was interrupted, there is no further retry, no recall and no notice, and the
  registry is as it was. Such a signal is never handed to \<open>is_network_error\<close>.
\<close>

theorem cancellation_propagates:
  assumes "\<forall>i<k. fails_transiently (next_action ev i)"
    and "\<forall>i<k. sleep_retry p i = None"
    and "int k \<le> retry_attempts c"
  shows "(next_action ev k = Raises (Base b) \<longrightarrow>
            network_error_handler next_action c p ev reg =
              (Raises (Base b), reg, NextAction # retry_calls c [0..<k])) \<and>
         (fails_transiently (next_action ev k) \<and> sleep_retry p k = Some b \<and>
          int k < retry_attempts c \<longrightarrow>
            network_error_handler next_action c p ev reg =
              (Raises (Base b), reg,
               NextAction # retry_calls c [0..<k] @
                 [Sleep (backoff (retry_delay_base_ms c) k)])) \<and>
         filter is_RecallAndClear (NextAction # retry_calls c [0..<k] @
                 [Sleep (backoff (retry_delay_base_ms c) k)]) = [] \<and>
         filter is_RecallMessage (NextAction # retry_calls c [0..<k] @
                 [Sleep (backoff (retry_delay_base_ms c) k)]) = [] \<and>
         filter is_SendMessage (NextAction # retry_calls c [0..<k] @
                 [Sleep (backoff (retry_delay_base_ms c) k)]) = [] \<and>
         length (filter (\<lambda>x. x = NextAction) (NextAction # retry_calls c [0..<k])) = Suc k"
proof -
  have "network_error_handler next_action c p ev reg =
          (Raises (Base b), reg, NextAction # retry_calls c [0..<k])"
    if "next_action ev k = Raises (Base b)"
    using handler_settled [of k next_action ev p c reg] assms that by simp
  moreover have "network_error_handler next_action c p ev reg =
              (Raises (Base b), reg,
               NextAction # retry_calls c [0..<k] @
                 [Sleep (backoff (retry_delay_base_ms c) k)])"
    if "fails_transiently (next_action ev k)" "sleep_retry p k = Some b"
      "int k < retry_attempts c"
    using handler_sleep_cancelled [of k next_action ev p b c reg] assms that
    by (simp add: le_less)
  ultimately show ?thesis by simp
qed

theorem cancellation_propagates_witness:
  "network_error_handler (fails_then 1 (Raises (Base CancelledError)))
     scenario_settings calm_platform scenario_event [(''c'', ''m0'')] =
   (Raises (Base CancelledError), [(''c'', ''m0'')], [NextAction, Sleep (1 / 10), NextAction]) \<and>
   network_error_handler (fails_then 0 (Raises (Base KeyboardInterrupt)))
     scenario_settings calm_platform scenario_event [(''c'', ''m0'')] =
   (Raises (Base KeyboardInterrupt), [(''c'', ''m0'')], [NextAction]) \<and>
   network_error_handler (fails_then 3 (Returns None))
     scenario_settings (calm_platform\<lparr>sleep_retry := (\<lambda>i. if i = 1 then Some CancelledError else None)\<rparr>)
     scenario_event [(''c'', ''m0'')] =
   (Raises (Base CancelledError), [(''c'', ''m0'')],
    [NextAction, Sleep (1 / 10), NextAction, Sleep (1 / 5)])"
  using cancellation_propagates [of 1 "fails_then 1 (Raises (Base CancelledError))"
      scenario_event calm_platform scenario_settings CancelledError "[(''c'', ''m0'')]"]
    cancellation_propagates [of 0 "fails_then 0 (Raises (Base KeyboardInterrupt))"
      scenario_event calm_platform scenario_settings KeyboardInterrupt "[(''c'', ''m0'')]"]
    cancellation_propagates [of 1 "fails_then 3 (Returns None)"
      scenario_event "calm_platform\<lparr>sleep_retry := (\<lambda>i. if i = 1 then Some CancelledError else None)\<rparr>"
      scenario_settings CancelledError "[(''c'', ''m0'')]"]
  by (simp add: scenario_defs is_network_error_def backoff_def)

section \<open>Success without a message ID\<close>

text \<open>
  C10. When the inner action completes with \<open>None\<close>, on the first attempt or in a retry,
  the handler returns normally and the registry, the entry of the event's channel
  included, is exactly what it was before the invocation.
\<close>

theorem returning_none_keeps_registry:
  assumes "\<forall>i<k. fails_transiently (next_action ev i)"
    and "\<forall>i<k. sleep_retry p i = None"
    and "int k \<le> retry_attempts c"
    and "next_action ev k = Returns None"
  shows "network_error_handler next_action c p ev reg =
           (Returns (), reg, NextAction # retry_calls c [0..<k])"
  using handler_settled [of k next_action ev p c reg] assms
  by simp

theorem returning_none_keeps_registry_witness:
  "network_error_handler (fails_then 0 (Returns None))
     scenario_settings calm_platform scenario_event [(''c'', ''m0'')] =
   (Returns (), [(''c'', ''m0'')], [NextAction]) \<and>
   network_error_handler (fails_then 2 (Returns None))
     scenario_settings calm_platform scenario_event [] =
   (Returns (), [], [NextAction, Sleep (1 / 10), NextAction, Sleep (1 / 5), NextAction])"
  using returning_none_keeps_registry [of 0 "fails_then 0 (Returns None)"
      scenario_event calm_platform scenario_settings "[(''c'', ''m0'')]"]
    returning_none_keeps_registry [of 2 "fails_then 2 (Returns None)"
      scenario_event calm_platform scenario_settings "[]"]
  by (simp add: scenario_defs is_network_error_def backoff_def upt_rec)

section \<open>Runs of the recall routine\<close>

lemma recall_fails_iff: "recall_fails x = (\<exists>e. x = Some (Exc e))"
  by (cases x rule: recall_fails.cases) simp_all


lemma recall_calls_simps [simp]:
  "recall_calls ch m r base [] = []"
  "recall_calls ch m r base (i # xs) =
     (if int i < r then [RecallMessage ch m, Sleep (backoff base i)] else [RecallMessage ch m])
       @ recall_calls ch m r base xs"
  "recall_calls ch m r base (xs @ ys) = recall_calls ch m r base xs @ recall_calls ch m r base ys"
  by (simp_all add: recall_calls_def)

lemma recall_loop_failing:
  assumes "\<forall>i\<in>set xs. recall_fails (recall_message p ch m i) \<and>
             (int i < r \<longrightarrow> sleep_recall p i = None)"
  shows "recall_loop p ch m r base (xs @ ys) reg =
           after (recall_calls ch m r base xs) (recall_loop p ch m r base ys reg)"
  using assms
proof (induction xs)
  case Nil
  then show ?case by simp
next
  case (Cons i xs)
  then obtain e where "recall_message p ch m i = Some (Exc e)"
    by (auto simp: recall_fails_iff)
  with Cons show ?case by simp
qed


lemma recall_loop_registry:
  "fst (snd (recall_loop p ch m r base xs reg)) =
     (if fst (recall_loop p ch m r base xs reg) = Returned then AList.delete ch reg else reg)"
  by (induction xs)
     (auto split: option.splits raised.splits)






lemma one_entry_store: "one_entry_per_channel reg \<Longrightarrow> one_entry_per_channel (store ch x reg)"
  by (cases x) (simp_all add: one_entry_per_channel_def distinct_update)

lemma one_entry_delete:
  "one_entry_per_channel reg \<Longrightarrow> one_entry_per_channel (AList.delete ch reg)"
  by (simp add: one_entry_per_channel_def distinct_delete)



lemma recall_routine_registry:
  "fst (snd (recall_and_clear_message_id p ch m l r base reg)) = reg \<or>
   fst (snd (recall_and_clear_message_id p ch m l r base reg)) = AList.delete ch reg"
proof -
  obtain ex reg' cs where loop:
    "recall_loop p ch m r base [0..<nat (r + 1)] reg = (ex, reg', cs)"
    by (cases "recall_loop p ch m r base [0..<nat (r + 1)] reg")
  with recall_loop_registry [of p ch m r base "[0..<nat (r + 1)]" reg]
  show ?thesis
    by (cases ex) (auto simp: recall_and_clear_message_id_def split: if_splits)
qed


lemma recall_routine_skips:
  "map_of reg ch \<noteq> Some m \<Longrightarrow>
     recall_and_clear_message_id p ch m l r base reg = (Returns (), reg, [RecallAndClear ch m])"
  by (simp add: recall_and_clear_message_id_def)

lemma recall_routine_succeeds:
  assumes "map_of reg ch = Some m"
    and "\<forall>i<k. recall_fails (recall_message p ch m i) \<and> sleep_recall p i = None"
    and "recall_message p ch m k = None" and "int k \<le> r"
  shows "recall_and_clear_message_id p ch m l r base reg =
           (Returns (), AList.delete ch reg,
            RecallAndClear ch m # recall_calls ch m r base [0..<k] @ [RecallMessage ch m])"
proof -
  have k: "k < nat (r + 1)" using assms(4) by simp
  have "recall_loop p ch m r base ([0..<k] @ k # [Suc k..<nat (r + 1)]) reg =
          after (recall_calls ch m r base [0..<k])
            (recall_loop p ch m r base (k # [Suc k..<nat (r + 1)]) reg)"
    using assms(2) by (intro recall_loop_failing) simp
  then have "recall_loop p ch m r base [0..<nat (r + 1)] reg =
      (Returned, AList.delete ch reg, recall_calls ch m r base [0..<k] @ [RecallMessage ch m])"
    using upt_split [OF k] assms(3) by simp
  then show ?thesis
    using assms(1) by (simp add: recall_and_clear_message_id_def)
qed

lemma recall_routine_exhausted:
  assumes "map_of reg ch = Some m"
    and "\<forall>i. int i \<le> r \<longrightarrow> recall_fails (recall_message p ch m i) \<and> sleep_recall p i = None"
  shows "recall_and_clear_message_id p ch m l r base reg =
           (Returns (), reg, RecallAndClear ch m # recall_calls ch m r base [0..<nat (r + 1)])"
proof -
  have "recall_loop p ch m r base ([0..<nat (r + 1)] @ []) reg =
          after (recall_calls ch m r base [0..<nat (r + 1)])
            (recall_loop p ch m r base [] reg)"
    using assms(2) by (intro recall_loop_failing) auto
  then show ?thesis
    using assms(1) by (simp add: recall_and_clear_message_id_def)
qed


section \<open>What any invocation can do\<close>


lemma retry_loop_registry:
  "\<exists>y. fst (snd (retry_loop act p c ch xs reg)) = store ch y reg"
proof (induction xs)
  case Nil
  show ?case by (rule exI [of _ None]) simp
next
  case (Cons i xs)
  have same: "\<exists>y. reg = store ch y reg"
    by (rule exI [of _ None]) simp
  show ?case
    using Cons same by (auto split: option.splits outcome.splits raised.splits)
qed

lemma retry_loop_completed_registry:
  "fst (retry_loop act p c ch xs reg) = Completed \<Longrightarrow>
     fst (snd (retry_loop act p c ch xs reg)) = reg"
  by (induction xs) (auto split: option.splits outcome.splits raised.splits if_splits)

lemma retry_loop_no_recovery [simp]:
  "filter is_RecallAndClear (snd (snd (retry_loop act p c ch xs reg))) = []"
  "filter is_RecallMessage (snd (snd (retry_loop act p c ch xs reg))) = []"
  "filter is_SendMessage (snd (snd (retry_loop act p c ch xs reg))) = []"
  by (induction xs; auto split: option.splits outcome.splits raised.splits)+



lemma send_notice_run:
  "snd (snd (send_notice p c ch reg)) = [SendMessage ch (error_message_text c)] \<and>
   (\<exists>y. fst (snd (send_notice p c ch reg)) = store ch y reg) \<and>
   (\<forall>x. fst (send_notice p c ch reg) = Raises x \<longrightarrow>
        (\<exists>b. x = Base b \<and> send_message p ch (error_message_text c) = Raises (Base b)))"
proof -
  have same: "\<exists>y. reg = store ch y reg"
    by (rule exI [of _ None]) simp
  show ?thesis
    using same by (auto simp: send_notice_def split: outcome.splits raised.splits)
qed

lemma recover_unfold:
  "recover p c ch prior reg =
     (if truthy prior
      then (case fst (recall_and_clear_message_id p ch (the prior) (log_sensitive_info c)
                        (recall_retry_attempts c) (recall_retry_delay_base_ms c) reg) of
              Raises e \<Rightarrow> recall_and_clear_message_id p ch (the prior) (log_sensitive_info c)
                        (recall_retry_attempts c) (recall_retry_delay_base_ms c) reg
            | Returns u \<Rightarrow>
                after (snd (snd (recall_and_clear_message_id p ch (the prior)
                        (log_sensitive_info c) (recall_retry_attempts c)
                        (recall_retry_delay_base_ms c) reg)))
                  (send_notice p c ch (fst (snd (recall_and_clear_message_id p ch (the prior)
                        (log_sensitive_info c) (recall_retry_attempts c)
                        (recall_retry_delay_base_ms c) reg)))))
      else send_notice p c ch reg)"
proof (cases "truthy prior")
  case False
  then show ?thesis by (cases prior) (simp_all add: recover_def)
next
  case True
  then obtain m where m: "prior = Some m" "m \<noteq> []"
    by (cases prior) simp_all
  obtain out reg' cs where "recall_and_clear_message_id p ch m (log_sensitive_info c)
      (recall_retry_attempts c) (recall_retry_delay_base_ms c) reg = (out, reg', cs)"
    by (cases "recall_and_clear_message_id p ch m (log_sensitive_info c)
      (recall_retry_attempts c) (recall_retry_delay_base_ms c) reg")
  with m show ?thesis
    by (cases out) (simp_all add: recover_def)
qed



lemma recover_one_entry:
  assumes "one_entry_per_channel reg"
  shows "one_entry_per_channel (fst (snd (recover p c ch prior reg)))"
proof (cases "truthy prior")
  case False
  then show ?thesis
    using send_notice_run [of p c ch reg] assms
    by (auto simp: recover_unfold one_entry_store)
next
  case True
  let ?T = "recall_and_clear_message_id p ch (the prior) (log_sensitive_info c)
      (recall_retry_attempts c) (recall_retry_delay_base_ms c) reg"
  have T: "one_entry_per_channel (fst (snd ?T))"
    using recall_routine_registry [of p ch "the prior" "log_sensitive_info c"
        "recall_retry_attempts c" "recall_retry_delay_base_ms c" reg] assms
    by (auto simp: one_entry_delete)
  show ?thesis
  proof (cases "fst ?T")
    case (Raises e)
    with True T show ?thesis by (simp add: recover_unfold)
  next
    case (Returns u)
    with True T send_notice_run [of p c ch "fst (snd ?T)"] show ?thesis
      by (auto simp: recover_unfold one_entry_store)
  qed
qed




lemma handler_unfold_transient:
  assumes "next_action ev 0 = Raises (Exc e)" and "is_network_error e"
  shows "network_error_handler next_action c p ev reg =
     (case fst (retry_loop (next_action ev) p c (channel_id ev) [0..<nat (retry_attempts c)] reg) of
        Returned \<Rightarrow>
          (Returns (),
           fst (snd (retry_loop (next_action ev) p c (channel_id ev)
                  [0..<nat (retry_attempts c)] reg)),
           NextAction # snd (snd (retry_loop (next_action ev) p c (channel_id ev)
                  [0..<nat (retry_attempts c)] reg)))
      | Raised x \<Rightarrow>
          (Raises x,
           fst (snd (retry_loop (next_action ev) p c (channel_id ev)
                  [0..<nat (retry_attempts c)] reg)),
           NextAction # snd (snd (retry_loop (next_action ev) p c (channel_id ev)
                  [0..<nat (retry_attempts c)] reg)))
      | Completed \<Rightarrow>
          after (NextAction # snd (snd (retry_loop (next_action ev) p c (channel_id ev)
                  [0..<nat (retry_attempts c)] reg)))
            (recover p c (channel_id ev) (map_of reg (channel_id ev)) reg))"
proof -
  obtain ex reg' cs where loop: "retry_loop (next_action ev) p c (channel_id ev)
                  [0..<nat (retry_attempts c)] reg = (ex, reg', cs)"
    by (cases "retry_loop (next_action ev) p c (channel_id ev)
                  [0..<nat (retry_attempts c)] reg")
  have "ex = Completed \<Longrightarrow> reg' = reg"
    using retry_loop_completed_registry [of "next_action ev" p c "channel_id ev"
        "[0..<nat (retry_attempts c)]" reg] loop by simp
  with loop assms show ?thesis
    by (cases ex) (auto simp: network_error_handler_def)
qed



lemma handler_one_entry:
  assumes "one_entry_per_channel reg"
  shows "one_entry_per_channel (fst (snd (network_error_handler next_action c p ev reg)))"
proof (cases "next_action ev 0")
  case (Returns y)
  with assms show ?thesis by (simp add: network_error_handler_def one_entry_store)
next
  case (Raises y)
  show ?thesis
  proof (cases y)
    case (Base b)
    with Raises assms show ?thesis by (simp add: network_error_handler_def)
  next
    case (Exc e)
    show ?thesis
    proof (cases "is_network_error e")
      case False
      with Raises Exc assms show ?thesis by (simp add: network_error_handler_def)
    next
      case True
      let ?L = "retry_loop (next_action ev) p c (channel_id ev)
                  [0..<nat (retry_attempts c)] reg"
      note unfold = handler_unfold_transient [of next_action ev e c p reg]
      have L: "one_entry_per_channel (fst (snd ?L))"
        using retry_loop_registry [of "next_action ev" p c "channel_id ev"
            "[0..<nat (retry_attempts c)]" reg] assms
        by (auto simp: one_entry_store)
      show ?thesis
        using unfold Raises Exc True L
          recover_one_entry [OF assms, of p c "channel_id ev" "map_of reg (channel_id ev)"]
        by (cases "fst ?L") simp_all
    qed
  qed
qed

section \<open>The recall routine and the registry\<close>

text \<open>
  C5. \<open>_recall_and_clear_message_id\<close> first compares the registry's entry for the channel
  with the message it was asked to recall. When they differ (or there is no entry) it
  makes no recall call and leaves the registry as it is. When they agree and a recall
  call succeeds (the first \<open>k\<close> having failed, \<open>k\<close> at most \<open>recall_retry_attempts\<close>), it
  removes the entry of the channel: the channel has no entry afterwards. In every case
  the registry it leaves is the old one or the old one without the channel. A registry
  with at most one entry for each channel still has at most one after the routine, and
  after a whole invocation of the handler.
\<close>

theorem recall_rechecks_and_clears:
  "(map_of reg ch \<noteq> Some m \<longrightarrow>
      recall_and_clear_message_id p ch m l r base reg =
        (Returns (), reg, [RecallAndClear ch m])) \<and>
   (map_of reg ch = Some m \<and>
    (\<forall>i<k. recall_fails (recall_message p ch m i) \<and> sleep_recall p i = None) \<and>
    recall_message p ch m k = None \<and> int k \<le> r \<longrightarrow>
      recall_and_clear_message_id p ch m l r base reg =
        (Returns (), AList.delete ch reg,
         RecallAndClear ch m # recall_calls ch m r base [0..<k] @ [RecallMessage ch m]) \<and>
      map_of (AList.delete ch reg) ch = None) \<and>
   (fst (snd (recall_and_clear_message_id p ch m l r base reg)) = reg \<or>
    fst (snd (recall_and_clear_message_id p ch m l r base reg)) = AList.delete ch reg) \<and>
   (one_entry_per_channel reg \<longrightarrow>
      one_entry_per_channel (fst (snd (recall_and_clear_message_id p ch m l r base reg))) \<and>
      one_entry_per_channel (fst (snd (network_error_handler next_action c p ev reg))))"
proof -
  have "one_entry_per_channel (fst (snd (recall_and_clear_message_id p ch m l r base reg)))"
    if "one_entry_per_channel reg"
    using recall_routine_registry [of p ch m l r base reg] that
    by (auto simp: one_entry_delete)
  then show ?thesis
    using recall_routine_skips [of reg ch m p l r base]
      recall_routine_succeeds [of reg ch m k p r l base]
      recall_routine_registry [of p ch m l r base reg]
      handler_one_entry [of reg next_action c p ev]
    by (simp add: delete_conv')
qed

theorem recall_rechecks_and_clears_witness:
  "recall_and_clear_message_id calm_platform ''c'' ''m0'' False 2 500 [(''c'', ''m1'')] =
     (Returns (), [(''c'', ''m1'')], [RecallAndClear ''c'' ''m0'']) \<and>
   recall_and_clear_message_id
     (calm_platform\<lparr>recall_message :=
        (\<lambda>ch m i. if i < 1 then Some (Exc (Exception NetworkError ''down'')) else None)\<rparr>)
     ''c'' ''m0'' False 2 500 [(''b'', ''m7''), (''c'', ''m0'')] =
     (Returns (), [(''b'', ''m7'')],
      [RecallAndClear ''c'' ''m0'', RecallMessage ''c'' ''m0'', Sleep (1 / 2),
       RecallMessage ''c'' ''m0'']) \<and>
   one_entry_per_channel [(''b'', ''m7''), (''c'', ''m0'')] \<and>
   one_entry_per_channel
     (fst (snd (network_error_handler (fails_then 1 (Returns (Some ''m1''))) scenario_settings
        calm_platform scenario_event [(''b'', ''m7''), (''c'', ''m0'')])))"
  using recall_rechecks_and_clears [where reg = "[(''c'', ''m1'')]" and ch = "''c''"
      and m = "''m0''" and p = calm_platform and l = False and r = 2 and base = 500 and k = 0
      and next_action = "fails_then 1 (Returns (Some ''m1''))" and c = scenario_settings
      and ev = scenario_event]
    recall_rechecks_and_clears [where reg = "[(''b'', ''m7''), (''c'', ''m0'')]"
      and ch = "''c''" and m = "''m0''"
      and p = "calm_platform\<lparr>recall_message :=
        (\<lambda>ch m i. if i < 1 then Some (Exc (Exception NetworkError ''down'')) else None)\<rparr>"
      and l = False and r = 2 and base = 500 and k = 1
      and next_action = "fails_then 1 (Returns (Some ''m1''))" and c = scenario_settings
      and ev = scenario_event]
  by (simp add: scenario_defs one_entry_per_channel_def backoff_def AList.delete_eq
        network_error_handler_def recall_and_clear_message_id_def is_network_error_def upt_rec)

section \<open>Backoff\<close>



section \<open>What leaves the handler\<close>




section \<open>Retries, then success or recovery\<close>



end
